theory Spec2Isabelle
  imports Main "HOL-Library.AList" "HOL-Library.Multiset"
begin

section \<open>Package gauge: the parsed document\<close>

text \<open>
  Go's \<open>int\<close> is read as a 64-bit two's complement number held in an \<open>int\<close>; the one
  addition of the code that can leave the range (\<open>line + 1\<close> in \<open>getScenarioAt\<close>) is
  wrapped with \<open>wrap64\<close>. Lengths and indices derived from them stay in range.
\<close>

definition wrap64 :: "int \<Rightarrow> int" where
  "wrap64 x = (x + 2 ^ 63) mod 2 ^ 64 - 2 ^ 63"

text \<open>
  What Go reports at run time and what the absent \<open>AddArgValue\<close> returns. A run-time
  panic is an error value of the model, so that a crash is a visible result.
\<close>

datatype error =
    InvalidParameter string
  | IndexOutOfRange
  | SliceBoundsOutOfRange
  | TypeAssertionFailed

datatype TokenKind =
    SpecKind | TagKind | ScenarioKind | CommentKind | StepKind | TableHeader
  | TableRow | HeadingKind | TableKind | DataTableKind | TearDownKind

type_synonym HeadingType = int

definition SpecHeading :: HeadingType where
  "SpecHeading = 0"

definition ScenarioHeading :: HeadingType where
  "ScenarioHeading = 1"

record Heading =
  Value :: string
  LineNo :: int
  HeadingType :: HeadingType

record Comment =
  Value :: string
  LineNo :: int

record TearDown =
  LineNo :: int
  Value :: string

record Tags =
  RawValues :: "string list list"

text \<open>
  Modelled from the spec: the types \<open>Table\<close> and \<open>DataTable\<close> are declared outside the
  files at hand; the spec names "a data table" among the items of a specification. A table
  is kept as its header and rows; nothing below looks inside one.
\<close>

record Table =
  Headers :: "string list"
  Rows :: "string list list"

record DataTable =
  Table :: Table

text \<open>
  Modelled from the spec: \<open>StepArg\<close> is declared outside the files at hand. Its four
  fields are the ones \<open>PopulateConceptLookup\<close> copies; \<open>ArgType\<close> is kept as its name.
\<close>

type_synonym ArgType = string

record StepArg =
  Value :: string
  ArgType :: ArgType
  Table :: Table
  Name :: string

text \<open>
  Modelled from the spec: \<open>ArgLookup\<close> is "an ordered, name-keyed table binding parameter
  names to argument values". An entry is a name with the value bound to it, if any: the
  names are entered when the concept is parsed, the values when it is invoked.
  \<open>AddArgValue\<close> binds a value to a name the table holds and returns an error for a name it
  does not hold; \<open>GetArg\<close> reads a name.
\<close>

type_synonym ArgLookup = "(string \<times> StepArg option) list"

definition AddArgValue :: "ArgLookup \<Rightarrow> string \<Rightarrow> StepArg \<Rightarrow> ArgLookup \<times> error option" where
  "AddArgValue lookup param stepArg =
     (if param \<in> fst ` set lookup
      then (AList.update param (Some stepArg) lookup, None)
      else (lookup, Some (InvalidParameter param)))"


text \<open>
  Modelled from the spec: \<open>StepValue\<close> is declared outside the files at hand: "the
  deduplicated, placeholder-normalized signature of a step, used as catalogue identity".
  The field \<open>StepValue\<close> is the signature, the key of the steps cache; the other two
  fields are the argument texts and the text with its parameter names.
\<close>

record StepValue =
  Args :: "string list"
  StepValue :: string
  ParameterizedStepValue :: string

text \<open>
  Modelled from the spec: \<open>Step\<close> is declared outside the files at hand. The fields are
  those of the spec's data model: line number, normalized signature (\<open>Value\<close>, the key of
  the dictionary search), text, call-site arguments, the concept flag, the lookup of this
  invocation, the nested steps and the \<open>Parent\<close> back-reference. \<open>Parent\<close> is a pointer
  to a step that the child does not own; it is held as the address of that step object.
\<close>

type_synonym addr = nat

datatype Step =
  Step (LineNo: int) (Value: string) (LineText: string) (Args: "StepArg list")
       (IsConcept: bool) (Lookup: ArgLookup) (ConceptSteps: "Step list")
       (Parent: "addr option")

text \<open>
  Modelled from the spec: \<open>Scenario\<close> is declared outside the files at hand: "heading,
  ordered steps, ordered items", with the source span that \<open>InSpan\<close> tests. The items of
  a document are a closed variant type over the kinds the code switches on.
\<close>

record Span =
  Start :: int
  End :: int

datatype Item =
    CommentItem Comment
  | StepItem Step
  | TagsItem Tags
  | DataTableItem DataTable
  | TearDownItem TearDown
  | ScenarioItem Scenario
and Scenario =
  Scenario (ScnHeading: Heading) (ScnSteps: "Step list") (ScnItems: "Item list")
           (ScnSpan: Span)

fun Kind :: "Item \<Rightarrow> TokenKind" where
  "Kind (CommentItem c) = CommentKind"
| "Kind (StepItem s) = StepKind"
| "Kind (TagsItem t) = TagKind"
| "Kind (DataTableItem d) = DataTableKind"
| "Kind (TearDownItem t) = TearDownKind"
| "Kind (ScenarioItem s) = ScenarioKind"

text \<open>Modelled from the spec: a scenario's source span contains a line.\<close>

definition InSpan :: "Scenario \<Rightarrow> int \<Rightarrow> bool" where
  "InSpan sce lineNumber =
     (Start (ScnSpan sce) \<le> lineNumber \<and> lineNumber \<le> End (ScnSpan sce))"

record Specification =
  Heading :: "Heading option"
  Scenarios :: "Scenario list"
  Comments :: "Comment list"
  DataTable :: DataTable
  Contexts :: "Step list"
  FileName :: string
  Tags :: "Tags option"
  Items :: "Item list"
  TearDownSteps :: "Step list"

record Concept =
  ConceptStep :: Step
  FileName :: string

text \<open>
  Modelled from the spec: the dictionary is a "mapping from normalized root-step signature
  to Concept"; \<open>Search\<close> reads it and answers nil for a signature without entry.
\<close>

record ConceptDictionary =
  ConceptsMap :: "(string \<times> Concept) list"

definition Search :: "ConceptDictionary \<Rightarrow> string \<Rightarrow> Concept option" where
  "Search conceptDictionary stepValue = map_of (ConceptsMap conceptDictionary) stepValue"

subsection \<open>Concept expansion\<close>

text \<open>
  Modelled from the spec: \<open>GetCopy\<close> deep-copies a step with its nested steps, and
  \<open>CopyFrom\<close> overwrites the receiver with the fields of another step. On values a deep
  copy is the value itself.
\<close>

definition GetCopy :: "Step \<Rightarrow> Step \<times> error option" where
  "GetCopy step = (step, None)"

definition CopyFrom :: "Step \<Rightarrow> Step \<Rightarrow> Step" where
  "CopyFrom step another =
     Step (Step.LineNo another) (Step.Value another) (LineText another) (Args another)
          (IsConcept another) (Lookup another) (ConceptSteps another) (Parent another)"

text \<open>Assignments to one field of a step.\<close>

definition set_Args :: "Step \<Rightarrow> StepArg list \<Rightarrow> Step" where
  "set_Args step args =
     Step (Step.LineNo step) (Step.Value step) (LineText step) args
          (IsConcept step) (Lookup step) (ConceptSteps step) (Parent step)"

definition set_Parent :: "Step \<Rightarrow> addr option \<Rightarrow> Step" where
  "set_Parent step p =
     Step (Step.LineNo step) (Step.Value step) (LineText step) (Args step)
          (IsConcept step) (Lookup step) (ConceptSteps step) p"

definition set_ConceptSteps :: "Step \<Rightarrow> Step list \<Rightarrow> Step" where
  "set_ConceptSteps step steps =
     Step (Step.LineNo step) (Step.Value step) (LineText step) (Args step)
          (IsConcept step) (Lookup step) steps (Parent step)"

definition set_Lookup :: "Step \<Rightarrow> ArgLookup \<Rightarrow> Step" where
  "set_Lookup step lookup =
     Step (Step.LineNo step) (Step.Value step) (LineText step) (Args step)
          (IsConcept step) lookup (ConceptSteps step) (Parent step)"

text \<open>
  The loop of \<open>PopulateConceptLookup\<close>: \<open>i\<close> is the index of the call-site argument at the
  head of the remaining ones. \<open>conceptArgs[i]\<close> panics when \<open>i\<close> is not an index of
  \<open>conceptArgs\<close>. The lookup is changed in place, so it is returned beside the error.
\<close>

definition copyStepArg :: "StepArg \<Rightarrow> StepArg" where
  "copyStepArg arg =
     \<lparr>StepArg.Value = StepArg.Value arg, ArgType = ArgType arg,
      Table = StepArg.Table arg, Name = Name arg\<rparr>"

fun PopulateConceptLookup_from ::
  "nat \<Rightarrow> ArgLookup \<Rightarrow> StepArg list \<Rightarrow> StepArg list \<Rightarrow> ArgLookup \<times> error option" where
  "PopulateConceptLookup_from i lookup conceptArgs [] = (lookup, None)"
| "PopulateConceptLookup_from i lookup conceptArgs (arg # rest) =
     (if i < length conceptArgs
      then (case AddArgValue lookup (StepArg.Value (conceptArgs ! i)) (copyStepArg arg) of
              (lookup', Some err) \<Rightarrow> (lookup', Some err)
            | (lookup', None) \<Rightarrow> PopulateConceptLookup_from (Suc i) lookup' conceptArgs rest)
      else (lookup, Some IndexOutOfRange))"

definition PopulateConceptLookup ::
  "ArgLookup \<Rightarrow> StepArg list \<Rightarrow> StepArg list \<Rightarrow> ArgLookup \<times> error option" where
  "PopulateConceptLookup lookup conceptArgs stepArgs =
     PopulateConceptLookup_from 0 lookup conceptArgs stepArgs"

text \<open>
  \<open>originalStep\<close> is a pointer: \<open>self\<close> is the address of the step object and
  \<open>originalStep\<close> its contents, returned as the call leaves them. The receiver \<open>spec\<close> is
  not read by these methods.
\<close>

definition createConceptStep :: "Step \<Rightarrow> addr \<Rightarrow> Step \<Rightarrow> Step \<times> error option" where
  "createConceptStep concept self originalStep =
     (case GetCopy concept of
        (stepCopy, Some err) \<Rightarrow> (originalStep, Some err)
      | (stepCopy, None) \<Rightarrow>
          (let originalArgs = Args originalStep;
               step1 = CopyFrom originalStep stepCopy;
               step2 = set_Args step1 originalArgs;
               step3 = set_ConceptSteps step2
                         (map (\<lambda>conceptStep. set_Parent conceptStep (Some self))
                              (ConceptSteps step2))
           in (case PopulateConceptLookup (Lookup step3) (Args concept) (Args step3) of
                 (lookup', err) \<Rightarrow> (set_Lookup step3 lookup', err))))"

definition processConceptStep ::
  "ConceptDictionary \<Rightarrow> addr \<Rightarrow> Step \<Rightarrow> Step \<times> error option" where
  "processConceptStep conceptDictionary self step =
     (case Search conceptDictionary (Step.Value step) of
        Some conceptFromDictionary \<Rightarrow>
          createConceptStep (ConceptStep conceptFromDictionary) self step
      | None \<Rightarrow> (step, None))"

section \<open>Package gauge: items and scenarios of a specification\<close>

text \<open>
  The slice expressions \<open>s[:i]\<close> and \<open>s[i:]\<close>. Go panics on a bound that is negative or
  beyond the slice; the code never asks for a bound between the length and the capacity.
\<close>

definition slice_to :: "'a list \<Rightarrow> int \<Rightarrow> error + 'a list" where
  "slice_to xs i =
     (if 0 \<le> i \<and> i \<le> int (length xs) then Inr (take (nat i) xs)
      else Inl SliceBoundsOutOfRange)"

definition slice_from :: "'a list \<Rightarrow> int \<Rightarrow> error + 'a list" where
  "slice_from xs i =
     (if 0 \<le> i \<and> i \<le> int (length xs) then Inr (drop (nat i) xs)
      else Inl SliceBoundsOutOfRange)"

definition AddItem :: "Specification \<Rightarrow> Item \<Rightarrow> Specification" where
  "AddItem spec itemToAdd = spec\<lparr>Items := Items spec @ [itemToAdd]\<rparr>"

definition AddScenario :: "Specification \<Rightarrow> Scenario \<Rightarrow> Specification" where
  "AddScenario spec scenario =
     AddItem (spec\<lparr>Scenarios := Scenarios spec @ [scenario]\<rparr>) (ScenarioItem scenario)"

text \<open>
  \<open>getIndexFor\<close> compares with \<open>reflect.DeepEqual\<close>, which on two scenario pointers
  compares what they point to: equality of the values.
\<close>

fun getIndexFor_from :: "int \<Rightarrow> Scenario \<Rightarrow> Scenario list \<Rightarrow> int" where
  "getIndexFor_from index scenario [] = - 1"
| "getIndexFor_from index scenario (anItem # rest) =
     (if scenario = anItem then index else getIndexFor_from (index + 1) scenario rest)"

definition getIndexFor :: "Scenario \<Rightarrow> Scenario list \<Rightarrow> int" where
  "getIndexFor scenario scenarios = getIndexFor_from 0 scenario scenarios"

definition set_Scenarios :: "Specification \<Rightarrow> error + Scenario list \<Rightarrow> Specification \<times> error option" where
  "set_Scenarios spec r =
     (case r of Inl err \<Rightarrow> (spec, Some err) | Inr scenarios \<Rightarrow> (spec\<lparr>Scenarios := scenarios\<rparr>, None))"

definition set_Items :: "Specification \<Rightarrow> error + Item list \<Rightarrow> Specification \<times> error option" where
  "set_Items spec r =
     (case r of Inl err \<Rightarrow> (spec, Some err) | Inr items \<Rightarrow> (spec\<lparr>Items := items\<rparr>, None))"

definition append_slices :: "error + 'a list \<Rightarrow> error + 'a list \<Rightarrow> error + 'a list" where
  "append_slices a b =
     (case a of Inl err \<Rightarrow> Inl err
      | Inr xs \<Rightarrow> (case b of Inl err \<Rightarrow> Inl err | Inr ys \<Rightarrow> Inr (xs @ ys)))"

definition removeScenario :: "Specification \<Rightarrow> Scenario \<Rightarrow> Specification \<times> error option" where
  "removeScenario spec scenario =
     (let index = getIndexFor scenario (Scenarios spec) in
      if int (length (Scenarios spec)) - 1 = index
      then set_Scenarios spec (slice_to (Scenarios spec) index)
      else if index = 0
      then set_Scenarios spec (slice_from (Scenarios spec) (index + 1))
      else set_Scenarios spec
             (append_slices (slice_to (Scenarios spec) index)
                            (slice_from (Scenarios spec) (index + 1))))"

definition removeItem :: "Specification \<Rightarrow> int \<Rightarrow> Specification \<times> error option" where
  "removeItem spec itemIndex =
     (if itemIndex < 0 \<or> int (length (Items spec)) \<le> itemIndex
      then (spec, Some IndexOutOfRange)
      else
        (let item = Items spec ! nat itemIndex in
         case (if int (length (Items spec)) - 1 = itemIndex
               then set_Items spec (slice_to (Items spec) itemIndex)
               else if 0 = itemIndex
               then set_Items spec (slice_from (Items spec) (itemIndex + 1))
               else set_Items spec
                      (append_slices (slice_to (Items spec) itemIndex)
                                     (slice_from (Items spec) (itemIndex + 1)))) of
           (spec', Some err) \<Rightarrow> (spec', Some err)
         | (spec', None) \<Rightarrow>
             (if Kind item = ScenarioKind
              then (case item of
                      ScenarioItem scenario \<Rightarrow> removeScenario spec' scenario
                    | _ \<Rightarrow> (spec', Some TypeAssertionFailed))
              else (spec', None))))"

text \<open>The view the spec speaks of: the scenarios among the items, in the order of the items.\<close>

fun scenariosOf :: "Item list \<Rightarrow> Scenario list" where
  "scenariosOf [] = []"
| "scenariosOf (ScenarioItem scenario # items) = scenario # scenariosOf items"
| "scenariosOf (item # items) = scenariosOf items"

definition consistent :: "Specification \<Rightarrow> bool" where
  "consistent spec \<longleftrightarrow> Scenarios spec = scenariosOf (Items spec)"

text \<open>
  \<open>Filter\<close>: the loop index stays where it is after a removal (\<open>i--\<close> before the \<open>i++\<close>
  of the loop) and moves on otherwise. The filter is the method \<open>Filter\<close> of the interface
  \<open>SpecItemFilter\<close>, a predicate on items.
\<close>

function Filter_from :: "(Item \<Rightarrow> bool) \<Rightarrow> nat \<Rightarrow> Specification \<Rightarrow> Specification \<times> error option" where
  "Filter_from fltr i spec =
     (if i < length (Items spec)
      then (if fltr (Items spec ! i)
            then (case removeItem spec (int i) of
                    (spec', Some err) \<Rightarrow> (spec', Some err)
                  | (spec', None) \<Rightarrow> Filter_from fltr i spec')
            else Filter_from fltr (Suc i) spec)
      else (spec, None))"
  by pat_completeness auto
termination
proof (relation "measure (\<lambda>(fltr, i, spec). length (Items spec) - i)")
  show "wf (measure (\<lambda>(fltr, i, spec). length (Items spec) - i))"
    by simp
next
  fix fltr :: "Item \<Rightarrow> bool" and i :: nat and spec x :: Specification and y :: "error option"
  assume i: "i < length (Items spec)" and r: "(x, y) = removeItem spec (int i)" and y: "y = None"
  have s: "Items (fst (removeScenario sp sc)) = Items sp" for sp sc
    by (simp add: removeScenario_def set_Scenarios_def Let_def split: sum.splits)
  have "length (Items (fst (removeItem spec (int i)))) < length (Items spec)"
    using i
    by (auto simp: removeItem_def set_Items_def slice_to_def slice_from_def
        append_slices_def Let_def s split: Item.splits)
  with r [symmetric] have "length (Items x) < length (Items spec)"
    by simp
  with i show "((fltr, i, x), (fltr, i, spec)) \<in> measure (\<lambda>(fltr, i, spec). length (Items spec) - i)"
    by simp
next
  fix fltr :: "Item \<Rightarrow> bool" and i :: nat and spec :: Specification
  assume "i < length (Items spec)"
  then show "((fltr, Suc i, spec), (fltr, i, spec)) \<in> measure (\<lambda>(fltr, i, spec). length (Items spec) - i)"
    by simp
qed

definition Filter :: "Specification \<Rightarrow> (Item \<Rightarrow> bool) \<Rightarrow> Specification \<times> error option" where
  "Filter spec fltr = Filter_from fltr 0 spec"



section \<open>Package lang: the scenario at a line\<close>

record ScenarioInfo =
  Heading :: string
  LineNo :: int
  ExecutionIdentifier :: string

text \<open>The verb \<open>%d\<close> of \<open>fmt.Sprintf\<close>: an integer in decimal, with a sign when negative.\<close>

definition digit :: "nat \<Rightarrow> char" where
  "digit n = ''0123456789'' ! n"

function decimal :: "nat \<Rightarrow> string" where
  "decimal n = (if n < 10 then [digit n] else decimal (n div 10) @ [digit (n mod 10)])"
  by pat_completeness auto
termination
  by (relation "measure (\<lambda>n. n)") auto

declare decimal.simps [simp del]

definition Sprintf_d :: "int \<Rightarrow> string" where
  "Sprintf_d i = (if i < 0 then ''-'' @ decimal (nat (- i)) else decimal (nat i))"

definition getScenarioInfo :: "Scenario \<Rightarrow> string \<Rightarrow> ScenarioInfo" where
  "getScenarioInfo sce file =
     \<lparr>ScenarioInfo.Heading = Heading.Value (ScnHeading sce),
      LineNo = Heading.LineNo (ScnHeading sce),
      ExecutionIdentifier = file @ '':'' @ Sprintf_d (Heading.LineNo (ScnHeading sce))\<rparr>"

text \<open>
  The result of \<open>getScenarioAt\<close> is an \<open>interface{}\<close> that holds either one
  \<open>ScenarioInfo\<close> or the slice of them.
\<close>

datatype ScenarioAt = OneScenario ScenarioInfo | ScenarioList "ScenarioInfo list"

fun getScenarioAt_from ::
  "ScenarioInfo list \<Rightarrow> Scenario list \<Rightarrow> string \<Rightarrow> int \<Rightarrow> ScenarioAt" where
  "getScenarioAt_from ifs [] file line = ScenarioList ifs"
| "getScenarioAt_from ifs (sce # rest) file line =
     (let info = getScenarioInfo sce file in
      if InSpan sce (wrap64 (line + 1)) then OneScenario info
      else getScenarioAt_from (ifs @ [info]) rest file line)"

definition getScenarioAt :: "Scenario list \<Rightarrow> string \<Rightarrow> int \<Rightarrow> ScenarioAt" where
  "getScenarioAt scenarios file line = getScenarioAt_from [] scenarios file line"

section \<open>Package infoGatherer: the caches\<close>

text \<open>
  A Go map is an association list with one entry per key: \<open>m[k]\<close> is \<open>map_of\<close>,
  \<open>m[k] = v\<close> is \<open>AList.update\<close>, \<open>delete(m, k)\<close> is \<open>AList.delete\<close>. Go leaves the order
  of \<open>range\<close> over a map open; the model ranges in the order of first insertion. The
  caches are the maps made by \<open>initSpecsCache\<close>, \<open>initConceptsCache\<close> and
  \<open>initStepsCache\<close>. The wait group and the mutex order the calls; each call below is one
  that runs alone.
\<close>

record SpecInfoGatherer =
  conceptDictionary :: "ConceptDictionary option"
  specsCache :: "(string \<times> Specification list) list"
  conceptsCache :: "(string \<times> Concept list) list"
  stepsCache :: "(string \<times> StepValue) list"
  SpecDirs :: "string list"

text \<open>
  Modelled from the spec: \<open>ParseResult\<close> "carries an ok flag and an error";
  \<open>NewConceptDictionary\<close> makes a dictionary without entries. The parsers are outside the
  files at hand and are parameters: \<open>parser.ParseSpecFiles\<close>, \<open>ConceptParser.ParseFile\<close>
  and \<open>parser.CreateStepValue\<close>.
\<close>

record ParseResult =
  Ok :: bool
  Error :: "string option"

definition NewConceptDictionary :: ConceptDictionary where
  "NewConceptDictionary = \<lparr>ConceptsMap = []\<rparr>"

type_synonym ParseSpecFiles =
  "string list \<Rightarrow> ConceptDictionary \<Rightarrow> Specification list \<times> ParseResult list"

type_synonym ParseFile = "string \<Rightarrow> Step list \<times> ParseResult option"

type_synonym CreateStepValue = "Step \<Rightarrow> StepValue"

definition addToSpecsCache ::
  "SpecInfoGatherer \<Rightarrow> string \<Rightarrow> Specification \<Rightarrow> SpecInfoGatherer" where
  "addToSpecsCache s key val =
     s\<lparr>specsCache :=
         AList.update key
           ((case map_of (specsCache s) key of None \<Rightarrow> [] | Some specs \<Rightarrow> specs) @ [val])
           (specsCache s)\<rparr>"

definition addToConceptsCache ::
  "SpecInfoGatherer \<Rightarrow> string \<Rightarrow> Concept \<Rightarrow> SpecInfoGatherer" where
  "addToConceptsCache s key val =
     s\<lparr>conceptsCache :=
         AList.update key
           ((case map_of (conceptsCache s) key of None \<Rightarrow> [] | Some concepts \<Rightarrow> concepts) @ [val])
           (conceptsCache s)\<rparr>"

fun addToStepsCache :: "SpecInfoGatherer \<Rightarrow> StepValue list \<Rightarrow> SpecInfoGatherer" where
  "addToStepsCache s [] = s"
| "addToStepsCache s (step # allSteps) =
     (if map_of (stepsCache s) (StepValue step) = None
      then addToStepsCache
             (s\<lparr>stepsCache := AList.update (StepValue step) step (stepsCache s)\<rparr>) allSteps
      else addToStepsCache s allSteps)"

fun getParsedStepValues :: "CreateStepValue \<Rightarrow> Step list \<Rightarrow> StepValue list" where
  "getParsedStepValues createStepValue [] = []"
| "getParsedStepValues createStepValue (step # steps) =
     (if \<not> IsConcept step
      then createStepValue step # getParsedStepValues createStepValue steps
      else getParsedStepValues createStepValue steps)"

definition getStepsFromSpec :: "CreateStepValue \<Rightarrow> Specification \<Rightarrow> StepValue list" where
  "getStepsFromSpec createStepValue spec =
     getParsedStepValues createStepValue (Contexts spec)
     @ concat (map (\<lambda>scenario. getParsedStepValues createStepValue (ScnSteps scenario))
                   (Scenarios spec))"

definition getStepsFromConcept :: "CreateStepValue \<Rightarrow> Concept \<Rightarrow> StepValue list" where
  "getStepsFromConcept createStepValue concept =
     getParsedStepValues createStepValue (ConceptSteps (ConceptStep concept))"

definition getStepsFromCachedSpecs :: "CreateStepValue \<Rightarrow> SpecInfoGatherer \<Rightarrow> StepValue list" where
  "getStepsFromCachedSpecs createStepValue s =
     concat (map (\<lambda>(file, specList). concat (map (getStepsFromSpec createStepValue) specList))
                 (specsCache s))"

definition getStepsFromCachedConcepts :: "CreateStepValue \<Rightarrow> SpecInfoGatherer \<Rightarrow> StepValue list" where
  "getStepsFromCachedConcepts createStepValue s =
     concat (map (\<lambda>(file, conceptList).
                    concat (map (getStepsFromConcept createStepValue) conceptList))
                 (conceptsCache s))"

definition initStepsCache :: "CreateStepValue \<Rightarrow> SpecInfoGatherer \<Rightarrow> SpecInfoGatherer" where
  "initStepsCache createStepValue s =
     (let s1 = s\<lparr>stepsCache := []\<rparr>;
          stepsFromSpecs = getStepsFromCachedSpecs createStepValue s1;
          stepsFromConcepts = getStepsFromCachedConcepts createStepValue s1;
          allSteps = stepsFromSpecs @ stepsFromConcepts
      in addToStepsCache s1 allSteps)"

text \<open>\<open>handleParseFailures\<close> writes to the log and changes nothing.\<close>

definition getParsedSpecs ::
  "ParseSpecFiles \<Rightarrow> SpecInfoGatherer \<Rightarrow> string list \<Rightarrow> SpecInfoGatherer \<times> Specification list" where
  "getParsedSpecs parseSpecFiles s specFiles =
     (case conceptDictionary s of
        None \<Rightarrow>
          (s\<lparr>conceptDictionary := Some NewConceptDictionary\<rparr>,
           fst (parseSpecFiles specFiles NewConceptDictionary))
      | Some dictionary \<Rightarrow> (s, fst (parseSpecFiles specFiles dictionary)))"

definition onSpecFileModify ::
  "ParseSpecFiles \<Rightarrow> CreateStepValue \<Rightarrow> SpecInfoGatherer \<Rightarrow> string \<Rightarrow> SpecInfoGatherer" where
  "onSpecFileModify parseSpecFiles createStepValue s file =
     (case getParsedSpecs parseSpecFiles s [file] of
        (s1, parsedSpecs) \<Rightarrow>
          (if length parsedSpecs \<noteq> 0
           then (let parsedSpec = parsedSpecs ! 0;
                     s2 = addToSpecsCache s1 file parsedSpec;
                     stepsFromSpec = getStepsFromSpec createStepValue parsedSpec
                 in addToStepsCache s2 stepsFromSpec)
           else s1))"

fun onConceptFileModify_each ::
  "CreateStepValue \<Rightarrow> SpecInfoGatherer \<Rightarrow> string \<Rightarrow> Step list \<Rightarrow> SpecInfoGatherer" where
  "onConceptFileModify_each createStepValue s file [] = s"
| "onConceptFileModify_each createStepValue s file (concept # concepts) =
     (let c = \<lparr>ConceptStep = concept, FileName = file\<rparr>;
          s1 = addToConceptsCache s file c;
          stepsFromConcept = getStepsFromConcept createStepValue c;
          s2 = addToStepsCache s1 stepsFromConcept
      in onConceptFileModify_each createStepValue s2 file concepts)"

definition onConceptFileModify ::
  "ParseFile \<Rightarrow> CreateStepValue \<Rightarrow> SpecInfoGatherer \<Rightarrow> string \<Rightarrow> SpecInfoGatherer" where
  "onConceptFileModify parseFile createStepValue s file =
     (case parseFile file of
        (concepts, parseResults) \<Rightarrow>
          (case parseResults of
             Some result \<Rightarrow>
               (if Error result \<noteq> None then s
                else onConceptFileModify_each createStepValue s file concepts)
           | None \<Rightarrow> onConceptFileModify_each createStepValue s file concepts))"

definition onSpecFileRemove :: "SpecInfoGatherer \<Rightarrow> string \<Rightarrow> SpecInfoGatherer" where
  "onSpecFileRemove s file = s\<lparr>specsCache := AList.delete file (specsCache s)\<rparr>"

definition onConceptFileRemove :: "SpecInfoGatherer \<Rightarrow> string \<Rightarrow> SpecInfoGatherer" where
  "onConceptFileRemove s file = s\<lparr>conceptsCache := AList.delete file (conceptsCache s)\<rparr>"

definition GetAvailableSpecs :: "SpecInfoGatherer \<Rightarrow> Specification list" where
  "GetAvailableSpecs s = concat (map snd (specsCache s))"

definition GetAvailableSteps :: "SpecInfoGatherer \<Rightarrow> StepValue list" where
  "GetAvailableSteps s = map snd (stepsCache s)"



section \<open>Example data\<close>

subsection \<open>A concept and three calls of it\<close>

definition noTable :: Table where
  "noTable = \<lparr>Headers = [], Rows = []\<rparr>"

definition userParam :: StepArg where
  "userParam = \<lparr>StepArg.Value = ''user'', ArgType = ''dynamic'', Table = noTable, Name = ''user''\<rparr>"

definition passParam :: StepArg where
  "passParam = \<lparr>StepArg.Value = ''password'', ArgType = ''dynamic'', Table = noTable, Name = ''password''\<rparr>"

definition adminArg :: StepArg where
  "adminArg = \<lparr>StepArg.Value = ''admin'', ArgType = ''static'', Table = noTable, Name = []\<rparr>"

definition secretArg :: StepArg where
  "secretArg = \<lparr>StepArg.Value = ''secret'', ArgType = ''static'', Table = noTable, Name = []\<rparr>"

definition openStep :: Step where
  "openStep = Step 3 ''open the login page'' ''open the login page'' [] False [] [] None"

definition typeStep :: Step where
  "typeStep = Step 4 ''enter {} and {}'' ''enter <user> and <password>'' [userParam, passParam]
                True [(''user'', None), (''password'', None)] [] None"

definition loginConceptStep :: Step where
  "loginConceptStep =
     Step 2 ''login as {} with {}'' ''login as <user> with <password>'' [userParam, passParam]
       True [(''user'', None), (''password'', None)] [openStep, typeStep] None"

definition loginDictionary :: ConceptDictionary where
  "loginDictionary =
     \<lparr>ConceptsMap = [(''login as {} with {}'',
                      \<lparr>ConceptStep = loginConceptStep, FileName = ''login.cpt''\<rparr>)]\<rparr>"

definition loginCall :: Step where
  "loginCall = Step 9 ''login as {} with {}'' ''login as admin with secret''
                 [adminArg, secretArg] False [] [] None"



definition clickCall :: Step where
  "clickCall = Step 11 ''click {}'' ''click ok'' [adminArg] False [] [] None"


subsection \<open>Specifications with two and three scenarios\<close>

definition emptySpec :: Specification where
  "emptySpec =
     \<lparr>Specification.Heading = None, Scenarios = [], Comments = [],
      DataTable = \<lparr>DataTable.Table = noTable\<rparr>, Contexts = [], FileName = ''a.spec'',
      Tags = None, Items = [], TearDownSteps = []\<rparr>"

definition loginScenario :: Scenario where
  "loginScenario =
     Scenario \<lparr>Heading.Value = ''Login'', LineNo = 5, HeadingType = ScenarioHeading\<rparr>
       [loginCall] [StepItem loginCall] \<lparr>Start = 5, End = 10\<rparr>"

definition logoutScenario :: Scenario where
  "logoutScenario =
     Scenario \<lparr>Heading.Value = ''Logout'', LineNo = 12, HeadingType = ScenarioHeading\<rparr>
       [clickCall] [StepItem clickCall] \<lparr>Start = 12, End = 15\<rparr>"

definition twoScenarios :: Specification where
  "twoScenarios = AddScenario (AddScenario emptySpec loginScenario) logoutScenario"

definition repeatedScenario :: Specification where
  "repeatedScenario = AddScenario twoScenarios loginScenario"


subsection \<open>Parsers and gatherers\<close>

definition exampleStepValue :: CreateStepValue where
  "exampleStepValue step =
     \<lparr>StepValue.Args = map StepArg.Value (Step.Args step), StepValue = Step.Value step,
      ParameterizedStepValue = LineText step\<rparr>"

definition logoutOnly :: Specification where
  "logoutOnly = AddScenario (emptySpec\<lparr>Specification.FileName := ''b.spec''\<rparr>) logoutScenario"

definition parsesTwoScenarios :: ParseSpecFiles where
  "parsesTwoScenarios specFiles dictionary = ([twoScenarios], [\<lparr>Ok = True, Error = None\<rparr>])"

definition parsesLogoutOnly :: ParseSpecFiles where
  "parsesLogoutOnly specFiles dictionary = ([logoutOnly], [\<lparr>Ok = True, Error = None\<rparr>])"

definition parsesNothing :: ParseSpecFiles where
  "parsesNothing specFiles dictionary = ([], [\<lparr>Ok = False, Error = Some ''no heading''\<rparr>])"

definition failsToParse :: ParseFile where
  "failsToParse file = ([loginConceptStep], Some \<lparr>Ok = False, Error = Some ''no heading''\<rparr>)"

definition emptyGatherer :: SpecInfoGatherer where
  "emptyGatherer =
     \<lparr>conceptDictionary = None, specsCache = [], conceptsCache = [], stepsCache = [],
      SpecDirs = []\<rparr>"

definition indexedOnce :: SpecInfoGatherer where
  "indexedOnce = onSpecFileModify parsesTwoScenarios exampleStepValue emptyGatherer ''a.spec''"

definition twoFiles :: SpecInfoGatherer where
  "twoFiles = onSpecFileModify parsesLogoutOnly exampleStepValue indexedOnce ''b.spec''"




section \<open>Concept expansion: properties\<close>










lemma createConceptStep_eq:
  "createConceptStep concept self originalStep =
     (Step (Step.LineNo concept) (Step.Value concept) (LineText concept) (Args originalStep)
        (IsConcept concept)
        (fst (PopulateConceptLookup (Lookup concept) (Args concept) (Args originalStep)))
        (map (\<lambda>conceptStep. set_Parent conceptStep (Some self)) (ConceptSteps concept))
        (Parent concept),
      snd (PopulateConceptLookup (Lookup concept) (Args concept) (Args originalStep)))"
  by (simp add: createConceptStep_def GetCopy_def CopyFrom_def set_Args_def
      set_ConceptSteps_def set_Lookup_def Let_def split: prod.split)



text \<open>
  Claim C6. A step whose signature has no entry in the concept dictionary is left as it is:
  \<open>processConceptStep\<close> returns no error, and the step it leaves behind is the step it
  was given, in every field.
\<close>

theorem processConceptStep_unknown_signature:
  assumes "Search dictionary (Step.Value step) = None"
  shows "processConceptStep dictionary self step = (step, None)"
  using assms by (simp add: processConceptStep_def)

theorem processConceptStep_unknown_signature_witness:
  "Search loginDictionary (Step.Value clickCall) = None
   \<and> processConceptStep loginDictionary 7 clickCall = (clickCall, None)"
proof -
  have h: "Search loginDictionary (Step.Value clickCall) = None"
    by (simp add: Search_def loginDictionary_def clickCall_def)
  from processConceptStep_unknown_signature [OF h, of 7] h show ?thesis by simp
qed



text \<open>
  Claim C7. After expansion succeeds for an invocation step, the nested steps of the step
  are the steps of the concept's body, each with its \<open>Parent\<close> set to the address of the
  invocation step; so every immediate child that is itself a concept invocation has the
  invocation step as its \<open>Parent\<close>.
\<close>

theorem createConceptStep_sets_Parent:
  assumes "Search dictionary (Step.Value step) = Some c"
    and "processConceptStep dictionary self step = (step', None)"
  shows "length (ConceptSteps step') = length (ConceptSteps (ConceptStep c))
       \<and> (\<forall>k<length (ConceptSteps step').
            ConceptSteps step' ! k = set_Parent (ConceptSteps (ConceptStep c) ! k) (Some self)
            \<and> (IsConcept (ConceptSteps step' ! k) \<longrightarrow>
                 Parent (ConceptSteps step' ! k) = Some self))"
proof -
  have eq: "createConceptStep (ConceptStep c) self step = (step', None)"
    using assms by (simp add: processConceptStep_def)
  then have "ConceptSteps step' =
      map (\<lambda>conceptStep. set_Parent conceptStep (Some self)) (ConceptSteps (ConceptStep c))"
    by (auto simp: createConceptStep_eq)
  then show ?thesis by (simp add: set_Parent_def)
qed

theorem createConceptStep_sets_Parent_witness:
  "Search loginDictionary (Step.Value loginCall)
     = Some \<lparr>ConceptStep = loginConceptStep, FileName = ''login.cpt''\<rparr>
   \<and> snd (processConceptStep loginDictionary 7 loginCall) = None
   \<and> length (ConceptSteps (fst (processConceptStep loginDictionary 7 loginCall))) = 2
   \<and> IsConcept (ConceptSteps (fst (processConceptStep loginDictionary 7 loginCall)) ! 1)
   \<and> Parent (ConceptSteps (fst (processConceptStep loginDictionary 7 loginCall)) ! 1) = Some 7"
proof -
  let ?c = "\<lparr>ConceptStep = loginConceptStep, FileName = ''login.cpt''\<rparr>"
  have h1: "Search loginDictionary (Step.Value loginCall) = Some ?c"
    by (simp add: Search_def loginDictionary_def loginCall_def)
  have ok: "snd (processConceptStep loginDictionary 7 loginCall) = None"
    unfolding processConceptStep_def h1
    by (simp add: createConceptStep_eq PopulateConceptLookup_def
        loginConceptStep_def loginCall_def AddArgValue_def userParam_def passParam_def)
  have h2: "processConceptStep loginDictionary 7 loginCall
              = (fst (processConceptStep loginDictionary 7 loginCall), None)"
    using ok by (simp add: prod_eq_iff)
  have body: "ConceptSteps loginConceptStep = [openStep, typeStep]"
    by (simp add: loginConceptStep_def)
  note T = createConceptStep_sets_Parent [OF h1 h2]
  have len: "length (ConceptSteps (fst (processConceptStep loginDictionary 7 loginCall))) = 2"
    using T [THEN conjunct1] by (simp add: body)
  have k: "ConceptSteps (fst (processConceptStep loginDictionary 7 loginCall)) ! 1
             = set_Parent typeStep (Some 7)
           \<and> (IsConcept (ConceptSteps (fst (processConceptStep loginDictionary 7 loginCall)) ! 1)
                \<longrightarrow> Parent (ConceptSteps (fst (processConceptStep loginDictionary 7 loginCall)) ! 1)
                      = Some 7)"
    using T [THEN conjunct2, THEN spec, of 1] len by (simp add: body set_Parent_def)
  have c: "IsConcept (set_Parent typeStep (Some 7))"
    by (simp add: set_Parent_def typeStep_def)
  have k1: "ConceptSteps (fst (processConceptStep loginDictionary 7 loginCall)) ! 1
             = set_Parent typeStep (Some 7)"
    using k by (rule conjunct1)
  have p: "Parent (ConceptSteps (fst (processConceptStep loginDictionary 7 loginCall)) ! 1) = Some 7"
    using k [THEN conjunct2] c k1 by simp
  have i: "IsConcept (ConceptSteps (fst (processConceptStep loginDictionary 7 loginCall)) ! 1)"
    using c k1 by simp
  from h1 ok len p i show ?thesis
    by simp
qed






section \<open>Items and scenarios: properties\<close>

declare Filter_from.simps [simp del]

lemma getIndexFor_from_found:
  "x \<in> set xs \<Longrightarrow>
   \<exists>n<length xs. getIndexFor_from i x xs = i + int n \<and> xs ! n = x \<and> x \<notin> set (take n xs)"
proof (induction xs arbitrary: i)
  case Nil
  then show ?case by simp
next
  case (Cons a xs)
  show ?case
  proof (cases "x = a")
    case True
    then have "getIndexFor_from i x (a # xs) = i + int 0 \<and> (a # xs) ! 0 = x \<and> x \<notin> set (take 0 (a # xs))"
      by simp
    then show ?thesis by blast
  next
    case False
    with Cons.prems have "x \<in> set xs" by simp
    from Cons.IH [OF this, of "i + 1"] obtain n where n: "n < length xs"
      "getIndexFor_from (i + 1) x xs = i + 1 + int n" "xs ! n = x" "x \<notin> set (take n xs)"
      by blast
    with False have "Suc n < length (a # xs) \<and> getIndexFor_from i x (a # xs) = i + int (Suc n)
        \<and> (a # xs) ! Suc n = x \<and> x \<notin> set (take (Suc n) (a # xs))"
      by simp
    then show ?thesis by blast
  qed
qed

lemma take_drop_remove1:
  "n < length xs \<Longrightarrow> xs ! n = x \<Longrightarrow> x \<notin> set (take n xs) \<Longrightarrow>
   take n xs @ drop (Suc n) xs = remove1 x xs"
proof (induction xs arbitrary: n)
  case Nil
  then show ?case by simp
next
  case (Cons a xs)
  then show ?case by (cases n) auto
qed

lemma removeScenario_found:
  assumes "x \<in> set (Scenarios spec)"
  shows "removeScenario spec x = (spec\<lparr>Scenarios := remove1 x (Scenarios spec)\<rparr>, None)"
proof -
  from getIndexFor_from_found [OF assms, of 0] obtain n where len: "n < length (Scenarios spec)"
    and gi: "getIndexFor x (Scenarios spec) = int n" and nth: "Scenarios spec ! n = x"
    and nin: "x \<notin> set (take n (Scenarios spec))"
    by (auto simp: getIndexFor_def)
  have r: "take n (Scenarios spec) @ drop (Suc n) (Scenarios spec) = remove1 x (Scenarios spec)"
    using len nth nin by (rule take_drop_remove1)
  have sto: "slice_to (Scenarios spec) (int n) = Inr (take n (Scenarios spec))"
    using len by (simp add: slice_to_def)
  have "0 \<le> int n + 1 \<and> int n + 1 \<le> int (length (Scenarios spec))"
    using len by linarith
  moreover have "nat (int n + 1) = Suc n"
    by simp
  ultimately have sfrom: "slice_from (Scenarios spec) (int n + 1) = Inr (drop (Suc n) (Scenarios spec))"
    by (simp only: slice_from_def simp_thms if_True)
  show ?thesis
  proof (cases "int (length (Scenarios spec)) - 1 = int n")
    case True
    then have "drop (Suc n) (Scenarios spec) = []" by simp
    with r have t: "take n (Scenarios spec) = remove1 x (Scenarios spec)" by simp
    have "removeScenario spec x = set_Scenarios spec (slice_to (Scenarios spec) (int n))"
      unfolding removeScenario_def Let_def gi using True by (simp only: simp_thms if_True)
    then show ?thesis
      by (simp only: sto t set_Scenarios_def sum.case)
  next
    case False
    show ?thesis
    proof (cases "n = 0")
      case True
      with r have t: "drop (Suc n) (Scenarios spec) = remove1 x (Scenarios spec)" by simp
      have "int n = 0" using True by simp
      then have "removeScenario spec x = set_Scenarios spec (slice_from (Scenarios spec) (int n + 1))"
        unfolding removeScenario_def Let_def gi using False by (simp only: simp_thms if_True if_False)
      then show ?thesis
        by (simp only: sfrom t set_Scenarios_def sum.case)
    next
      case n0: False
      then have "int n \<noteq> 0" by simp
      then have "removeScenario spec x =
          set_Scenarios spec (append_slices (slice_to (Scenarios spec) (int n))
                                            (slice_from (Scenarios spec) (int n + 1)))"
        unfolding removeScenario_def Let_def gi using False by (simp only: simp_thms if_False)
      then show ?thesis
        by (simp only: sto sfrom r append_slices_def set_Scenarios_def sum.case)
    qed
  qed
qed

lemma scenariosOf_append: "scenariosOf (xs @ ys) = scenariosOf xs @ scenariosOf ys"
  by (induction xs rule: scenariosOf.induct) simp_all

lemma set_scenariosOf: "sc \<in> set (scenariosOf items) \<longleftrightarrow> ScenarioItem sc \<in> set items"
  by (induction items rule: scenariosOf.induct) auto

lemma removeItem_items:
  assumes "i < length (Items spec)"
  shows "\<exists>spec'. Items spec' = take i (Items spec) @ drop (Suc i) (Items spec)
           \<and> Scenarios spec' = Scenarios spec
           \<and> removeItem spec (int i) =
               (case Items spec ! i of
                  ScenarioItem scenario \<Rightarrow> removeScenario spec' scenario
                | _ \<Rightarrow> (spec', None))"
proof -
  let ?items = "take i (Items spec) @ drop (Suc i) (Items spec)"
  let ?spec' = "spec\<lparr>Items := ?items\<rparr>"
  have sl: "(if int (length (Items spec)) - 1 = int i
               then set_Items spec (slice_to (Items spec) (int i))
               else if 0 = int i
               then set_Items spec (slice_from (Items spec) (int i + 1))
               else set_Items spec
                      (append_slices (slice_to (Items spec) (int i))
                                     (slice_from (Items spec) (int i + 1)))) = (?spec', None)"
  proof (cases "int (length (Items spec)) - 1 = int i")
    case True
    then have "Suc i = length (Items spec)" by linarith
    then have "drop (Suc i) (Items spec) = []" by simp
    with True assms show ?thesis by (simp add: set_Items_def slice_to_def)
  next
    case False
    have n: "nat (int i + 1) = Suc i" by simp
    show ?thesis
    proof (cases "i = 0")
      case True
      with assms have "Suc 0 \<le> length (Items spec)" by (simp add: Suc_le_eq)
      with True False show ?thesis
        by (simp add: set_Items_def slice_from_def)
    next
      case i0: False
      with False assms show ?thesis
        by (simp add: set_Items_def slice_to_def slice_from_def append_slices_def n)
    qed
  qed
  have "removeItem spec (int i) =
          (case Items spec ! i of
             ScenarioItem scenario \<Rightarrow> removeScenario ?spec' scenario
           | _ \<Rightarrow> (?spec', None))"
    using assms unfolding removeItem_def Let_def sl
    by (simp split: Item.splits)
  moreover have "Items ?spec' = ?items" "Scenarios ?spec' = Scenarios spec" by simp_all
  ultimately show ?thesis by blast
qed

lemma removeItem_consistent:
  assumes i: "i < length (Items spec)" and c: "consistent spec" and d: "distinct (Scenarios spec)"
  shows "snd (removeItem spec (int i)) = None
       \<and> Items (fst (removeItem spec (int i))) = take i (Items spec) @ drop (Suc i) (Items spec)
       \<and> Scenarios (fst (removeItem spec (int i)))
           = scenariosOf (take i (Items spec) @ drop (Suc i) (Items spec))"
proof -
  from removeItem_items [OF i] obtain spec' where
    it: "Items spec' = take i (Items spec) @ drop (Suc i) (Items spec)"
    and sc: "Scenarios spec' = Scenarios spec"
    and r: "removeItem spec (int i) =
              (case Items spec ! i of
                 ScenarioItem scenario \<Rightarrow> removeScenario spec' scenario
               | _ \<Rightarrow> (spec', None))"
    by blast
  have split: "Items spec = take i (Items spec) @ Items spec ! i # drop (Suc i) (Items spec)"
    using i by (rule id_take_nth_drop)
  show ?thesis
  proof (cases "Items spec ! i")
    case (ScenarioItem x)
    have so: "scenariosOf (Items spec) =
                scenariosOf (take i (Items spec)) @ x # scenariosOf (drop (Suc i) (Items spec))"
      using arg_cong [OF split, of scenariosOf] ScenarioItem by (simp add: scenariosOf_append)
    then have mem: "x \<in> set (Scenarios spec')"
      using c sc by (simp add: consistent_def)
    have nin: "x \<notin> set (scenariosOf (take i (Items spec)))"
      using d c so by (simp add: consistent_def)
    have "remove1 x (Scenarios spec') =
            scenariosOf (take i (Items spec)) @ scenariosOf (drop (Suc i) (Items spec))"
      using c sc so nin by (simp add: consistent_def remove1_append)
    with removeScenario_found [OF mem] r ScenarioItem it show ?thesis
      by (simp add: scenariosOf_append)
  next
    case (CommentItem x)
    with arg_cong [OF split, of scenariosOf] r it sc c show ?thesis
      by (simp add: scenariosOf_append consistent_def)
  next
    case (StepItem x)
    with arg_cong [OF split, of scenariosOf] r it sc c show ?thesis
      by (simp add: scenariosOf_append consistent_def)
  next
    case (TagsItem x)
    with arg_cong [OF split, of scenariosOf] r it sc c show ?thesis
      by (simp add: scenariosOf_append consistent_def)
  next
    case (DataTableItem x)
    with arg_cong [OF split, of scenariosOf] r it sc c show ?thesis
      by (simp add: scenariosOf_append consistent_def)
  next
    case (TearDownItem x)
    with arg_cong [OF split, of scenariosOf] r it sc c show ?thesis
      by (simp add: scenariosOf_append consistent_def)
  qed
qed

lemma distinct_scenariosOf_remove:
  "distinct (scenariosOf items) \<Longrightarrow> distinct (scenariosOf (take i items @ drop (Suc i) items))"
proof -
  assume d: "distinct (scenariosOf items)"
  have "scenariosOf items = scenariosOf (take i items) @ scenariosOf (drop i items)"
    by (metis append_take_drop_id scenariosOf_append)
  moreover have "set (scenariosOf (drop (Suc i) items)) \<subseteq> set (scenariosOf (drop i items))"
  proof -
    have "set (drop (Suc i) items) \<subseteq> set (drop i items)"
      by (rule set_drop_subset_set_drop) simp
    then show ?thesis by (auto simp: set_scenariosOf)
  qed
  moreover have "distinct (scenariosOf (drop (Suc i) items))"
  proof -
    have "scenariosOf items = scenariosOf (take (Suc i) items) @ scenariosOf (drop (Suc i) items)"
      by (metis append_take_drop_id scenariosOf_append)
    with d show ?thesis by (metis distinct_append)
  qed
  ultimately show ?thesis
    using d by (auto simp: scenariosOf_append)
qed

lemma Filter_from_consistent:
  "consistent spec \<Longrightarrow> distinct (Scenarios spec) \<Longrightarrow>
   snd (Filter_from fltr i spec) = None
   \<and> consistent (fst (Filter_from fltr i spec))
   \<and> Items (fst (Filter_from fltr i spec))
       = take i (Items spec) @ filter (\<lambda>item. \<not> fltr item) (drop i (Items spec))"
proof (induction fltr i spec rule: Filter_from.induct)
  case (1 fltr i spec)
  show ?case
  proof (cases "i < length (Items spec)")
    case False
    with "1.prems" show ?thesis
      by (simp add: Filter_from.simps [of fltr i spec])
  next
    case True
    then have dr: "drop i (Items spec) = Items spec ! i # drop (Suc i) (Items spec)"
      by (simp add: Cons_nth_drop_Suc)
    show ?thesis
    proof (cases "fltr (Items spec ! i)")
      case False
      have tk: "take (Suc i) (Items spec) = take i (Items spec) @ [Items spec ! i]"
        using True by (simp add: take_Suc_conv_app_nth)
      from "1.IH"(2) [OF True False "1.prems"] True False show ?thesis
        by (simp add: Filter_from.simps [of fltr i spec] dr tk)
    next
      case f: True
      obtain spec' e where r: "removeItem spec (int i) = (spec', e)"
        by (cases "removeItem spec (int i)")
      from removeItem_consistent [OF True "1.prems"] r
      have e: "e = None"
        and it: "Items spec' = take i (Items spec) @ drop (Suc i) (Items spec)"
        and sc: "Scenarios spec' = scenariosOf (take i (Items spec) @ drop (Suc i) (Items spec))"
        by simp_all
      have c': "consistent spec'"
        using it sc by (simp add: consistent_def)
      have d': "distinct (Scenarios spec')"
        using "1.prems" sc distinct_scenariosOf_remove [of "Items spec" i]
        by (simp add: consistent_def)
      have li: "i \<le> length (Items spec)" using True by simp
      have "take i (Items spec') = take i (Items spec)" "drop i (Items spec') = drop (Suc i) (Items spec)"
        using it li by simp_all
      with "1.IH"(1) [OF True f r [symmetric] e c' d'] True f r e show ?thesis
        by (simp add: Filter_from.simps [of fltr i spec] dr)
    qed
  qed
qed

lemma AddScenario_fields:
  "Items (AddScenario spec scenario) = Items spec @ [ScenarioItem scenario]"
  "Scenarios (AddScenario spec scenario) = Scenarios spec @ [scenario]"
  by (simp_all add: AddScenario_def AddItem_def)

lemma login_neq_logout: "loginScenario \<noteq> logoutScenario"
  by (simp add: loginScenario_def logoutScenario_def)

lemma twoScenarios_fields:
  "Items twoScenarios = [ScenarioItem loginScenario, ScenarioItem logoutScenario]"
  "Scenarios twoScenarios = [loginScenario, logoutScenario]"
  by (simp_all add: twoScenarios_def AddScenario_fields emptySpec_def)

lemma repeatedScenario_fields:
  "Items repeatedScenario =
     [ScenarioItem loginScenario, ScenarioItem logoutScenario, ScenarioItem loginScenario]"
  "Scenarios repeatedScenario = [loginScenario, logoutScenario, loginScenario]"
  by (simp_all add: repeatedScenario_def AddScenario_fields twoScenarios_fields)

text \<open>
  Claim C8 says that every specification whose \<open>Scenarios\<close> are the scenarios among its
  \<open>Items\<close> keeps that under \<open>removeItem\<close>. \<open>removeScenario\<close> looks the scenario up with
  \<open>reflect.DeepEqual\<close> and removes the first scenario equal to it. In \<open>repeatedScenario\<close>
  the same scenario was added twice with another one in between; removing its second
  occurrence from \<open>Items\<close> removes its first occurrence from \<open>Scenarios\<close>, and the two lists
  no longer agree.
\<close>

theorem removeItem_consistent_counterexample:
  "consistent repeatedScenario
   \<and> snd (removeItem repeatedScenario 2) = None
   \<and> Items (fst (removeItem repeatedScenario 2))
       = [ScenarioItem loginScenario, ScenarioItem logoutScenario]
   \<and> Scenarios (fst (removeItem repeatedScenario 2)) = [logoutScenario, loginScenario]
   \<and> \<not> consistent (fst (removeItem repeatedScenario 2))"
proof -
  have c: "consistent repeatedScenario"
    by (simp add: consistent_def repeatedScenario_fields)
  have r: "removeItem repeatedScenario 2 =
             (repeatedScenario\<lparr>Items := [ScenarioItem loginScenario, ScenarioItem logoutScenario],
                               Scenarios := [logoutScenario, loginScenario]\<rparr>, None)"
    by (simp add: removeItem_def removeScenario_def getIndexFor_def set_Items_def
        set_Scenarios_def slice_to_def slice_from_def append_slices_def Let_def
        repeatedScenario_fields login_neq_logout)
  have n: "\<not> consistent (fst (removeItem repeatedScenario 2))"
    using login_neq_logout by (simp add: r consistent_def)
  from c r n show ?thesis by simp
qed

text \<open>
  Claim C8, as amended. A specification whose \<open>Scenarios\<close> are the scenarios among its
  \<open>Items\<close>, in the order of \<open>Items\<close>, keeps that under \<open>AddScenario\<close>, which appends the
  scenario to both lists. When moreover no two scenarios of the specification are equal,
  \<open>removeItem\<close> at an index of \<open>Items\<close> and \<open>Filter\<close> return without panic and keep it too:
  \<open>removeItem\<close> takes out the item at the index and leaves the other items in their order,
  a removed scenario is then in neither list, and \<open>Filter\<close> leaves the items the filter
  rejects, in their order.
\<close>

theorem consistent_preserved:
  assumes "consistent spec"
  shows "consistent (AddScenario spec scenario)
       \<and> Items (AddScenario spec scenario) = Items spec @ [ScenarioItem scenario]
       \<and> Scenarios (AddScenario spec scenario) = Scenarios spec @ [scenario]
       \<and> (distinct (Scenarios spec) \<longrightarrow>
            (\<forall>i<length (Items spec).
               snd (removeItem spec (int i)) = None
               \<and> consistent (fst (removeItem spec (int i)))
               \<and> Items (fst (removeItem spec (int i)))
                   = take i (Items spec) @ drop (Suc i) (Items spec)
               \<and> (\<forall>sc. Items spec ! i = ScenarioItem sc \<longrightarrow>
                     sc \<notin> set (Scenarios (fst (removeItem spec (int i))))
                     \<and> ScenarioItem sc \<notin> set (Items (fst (removeItem spec (int i))))))
            \<and> snd (Filter spec fltr) = None
            \<and> consistent (fst (Filter spec fltr))
            \<and> Items (fst (Filter spec fltr)) = filter (\<lambda>item. \<not> fltr item) (Items spec))"
proof (intro conjI impI allI)
  show "consistent (AddScenario spec scenario)"
    using assms by (simp add: consistent_def AddScenario_fields scenariosOf_append)
  show "Items (AddScenario spec scenario) = Items spec @ [ScenarioItem scenario]"
    by (rule AddScenario_fields)
  show "Scenarios (AddScenario spec scenario) = Scenarios spec @ [scenario]"
    by (rule AddScenario_fields)
next
  fix i
  assume d: "distinct (Scenarios spec)" and i: "i < length (Items spec)"
  note R = removeItem_consistent [OF i assms d]
  show "snd (removeItem spec (int i)) = None"
    using R by simp
  show "consistent (fst (removeItem spec (int i)))"
    using R by (simp add: consistent_def)
  show "Items (fst (removeItem spec (int i))) = take i (Items spec) @ drop (Suc i) (Items spec)"
    using R by simp
next
  fix i sc
  assume d: "distinct (Scenarios spec)" and i: "i < length (Items spec)"
    and sc: "Items spec ! i = ScenarioItem sc"
  note R = removeItem_consistent [OF i assms d]
  have "Items spec = take i (Items spec) @ ScenarioItem sc # drop (Suc i) (Items spec)"
    using id_take_nth_drop [OF i] sc by simp
  from arg_cong [OF this, of scenariosOf]
  have "Scenarios spec =
          scenariosOf (take i (Items spec)) @ sc # scenariosOf (drop (Suc i) (Items spec))"
    using assms by (simp add: consistent_def scenariosOf_append)
  with d have nin: "sc \<notin> set (scenariosOf (take i (Items spec) @ drop (Suc i) (Items spec)))"
    by (simp add: scenariosOf_append)
  show "sc \<notin> set (Scenarios (fst (removeItem spec (int i))))"
    using R nin by simp
  show "ScenarioItem sc \<notin> set (Items (fst (removeItem spec (int i))))"
    using R nin by (simp only: set_scenariosOf) simp
next
  assume d: "distinct (Scenarios spec)"
  note F = Filter_from_consistent [OF assms d, of fltr 0]
  show "snd (Filter spec fltr) = None"
    using F by (simp add: Filter_def)
  show "consistent (fst (Filter spec fltr))"
    using F by (simp add: Filter_def)
  show "Items (fst (Filter spec fltr)) = filter (\<lambda>item. \<not> fltr item) (Items spec)"
    using F by (simp add: Filter_def)
qed

theorem consistent_preserved_witness:
  "consistent twoScenarios \<and> distinct (Scenarios twoScenarios)
   \<and> consistent (AddScenario twoScenarios loginScenario)
   \<and> snd (removeItem twoScenarios 0) = None
   \<and> consistent (fst (removeItem twoScenarios 0))
   \<and> Items (fst (removeItem twoScenarios 0)) = [ScenarioItem logoutScenario]
   \<and> loginScenario \<notin> set (Scenarios (fst (removeItem twoScenarios 0)))
   \<and> snd (Filter twoScenarios (\<lambda>item. item = ScenarioItem logoutScenario)) = None
   \<and> Items (fst (Filter twoScenarios (\<lambda>item. item = ScenarioItem logoutScenario)))
       = [ScenarioItem loginScenario]
   \<and> consistent (fst (Filter twoScenarios (\<lambda>item. item = ScenarioItem logoutScenario)))"
proof -
  have c: "consistent twoScenarios"
    by (simp add: consistent_def twoScenarios_fields)
  have d: "distinct (Scenarios twoScenarios)"
    using login_neq_logout by (simp add: twoScenarios_fields)
  have i: "0 < length (Items twoScenarios)"
    by (simp add: twoScenarios_fields)
  have s: "Items twoScenarios ! 0 = ScenarioItem loginScenario"
    by (simp add: twoScenarios_fields)
  note T = consistent_preserved [OF c, of loginScenario "\<lambda>item. item = ScenarioItem logoutScenario"]
  have a: "consistent (AddScenario twoScenarios loginScenario)"
    using T by (rule conjunct1)
  note U = T [THEN conjunct2, THEN conjunct2, THEN conjunct2, THEN mp, OF d]
  note V = U [THEN conjunct1, THEN spec, of 0, THEN mp, OF i]
  have r1: "snd (removeItem twoScenarios 0) = None"
    using V by simp
  have r2: "consistent (fst (removeItem twoScenarios 0))"
    using V by simp
  have r3: "Items (fst (removeItem twoScenarios 0)) = [ScenarioItem logoutScenario]"
    using V by (simp add: twoScenarios_fields)
  have r4: "loginScenario \<notin> set (Scenarios (fst (removeItem twoScenarios 0)))"
    using V [THEN conjunct2, THEN conjunct2, THEN conjunct2, THEN spec, of loginScenario] s
    by simp
  have f1: "snd (Filter twoScenarios (\<lambda>item. item = ScenarioItem logoutScenario)) = None"
    using U by simp
  have f2: "consistent (fst (Filter twoScenarios (\<lambda>item. item = ScenarioItem logoutScenario)))"
    using U by simp
  have f3: "Items (fst (Filter twoScenarios (\<lambda>item. item = ScenarioItem logoutScenario)))
              = [ScenarioItem loginScenario]"
    using U login_neq_logout by (simp add: twoScenarios_fields)
  from c d a r1 r2 r3 r4 f1 f2 f3 show ?thesis by simp
qed

section \<open>The scenario at a line: properties\<close>

lemma getScenarioAt_from_find:
  "getScenarioAt_from ifs scenarios file line =
     (case find (\<lambda>sce. InSpan sce (wrap64 (line + 1))) scenarios of
        Some sce \<Rightarrow> OneScenario (getScenarioInfo sce file)
      | None \<Rightarrow> ScenarioList (ifs @ map (\<lambda>sce. getScenarioInfo sce file) scenarios))"
  by (induction scenarios arbitrary: ifs) (simp_all add: Let_def split: option.splits)

text \<open>
  Claim C9 says that \<open>getScenarioAt\<close> returns the scenario whose span contains the line it
  is given. The code tests the span against \<open>line + 1\<close>. The scenario \<open>loginScenario\<close> spans
  the lines 5 to 10: for line 10, which the span contains, the result is the list of both
  summaries; for line 4, which neither span contains, the result is the summary of
  \<open>loginScenario\<close>.
\<close>

theorem getScenarioAt_counterexample:
  "InSpan loginScenario 10
   \<and> getScenarioAt [loginScenario, logoutScenario] ''a.spec'' 10
       = ScenarioList [getScenarioInfo loginScenario ''a.spec'',
                       getScenarioInfo logoutScenario ''a.spec'']
   \<and> \<not> InSpan loginScenario 4 \<and> \<not> InSpan logoutScenario 4
   \<and> getScenarioAt [loginScenario, logoutScenario] ''a.spec'' 4
       = OneScenario (getScenarioInfo loginScenario ''a.spec'')"
  by (simp add: getScenarioAt_def InSpan_def wrap64_def loginScenario_def logoutScenario_def Let_def)

text \<open>
  Claim C9, as amended. For every list of scenarios and every line number, \<open>getScenarioAt\<close>
  returns the summary of the first scenario whose source span contains \<open>line + 1\<close> (the
  line it is given counts from zero, the spans count from one; the sum is a 64-bit \<open>int\<close>)
  when there is such a scenario, and otherwise the list of the summaries of all scenarios.
\<close>

theorem getScenarioAt_first_in_span:
  "getScenarioAt scenarios file line =
     (case find (\<lambda>sce. InSpan sce (wrap64 (line + 1))) scenarios of
        Some sce \<Rightarrow> OneScenario (getScenarioInfo sce file)
      | None \<Rightarrow> ScenarioList (map (\<lambda>sce. getScenarioInfo sce file) scenarios))"
  by (simp add: getScenarioAt_def getScenarioAt_from_find split: option.splits)


section \<open>The caches: properties\<close>

lemma example_signatures:
  "StepValue (exampleStepValue loginCall) = ''login as {} with {}''"
  "StepValue (exampleStepValue clickCall) = ''click {}''"
  by (simp_all add: exampleStepValue_def loginCall_def clickCall_def)

lemma example_steps:
  "getStepsFromSpec exampleStepValue twoScenarios
     = [exampleStepValue loginCall, exampleStepValue clickCall]"
  "getStepsFromSpec exampleStepValue logoutOnly = [exampleStepValue clickCall]"
  by (simp_all add: getStepsFromSpec_def twoScenarios_def logoutOnly_def AddScenario_def
      AddItem_def emptySpec_def loginScenario_def logoutScenario_def loginCall_def clickCall_def)

lemma indexedOnce_eq:
  "indexedOnce =
     \<lparr>conceptDictionary = Some NewConceptDictionary,
      specsCache = [(''a.spec'', [twoScenarios])], conceptsCache = [],
      stepsCache = [(''login as {} with {}'', exampleStepValue loginCall),
                    (''click {}'', exampleStepValue clickCall)],
      SpecDirs = []\<rparr>"
  by (simp add: indexedOnce_def onSpecFileModify_def getParsedSpecs_def parsesTwoScenarios_def
      emptyGatherer_def addToSpecsCache_def example_steps example_signatures Let_def)

lemma twoFiles_eq:
  "twoFiles =
     \<lparr>conceptDictionary = Some NewConceptDictionary,
      specsCache = [(''a.spec'', [twoScenarios]), (''b.spec'', [logoutOnly])],
      conceptsCache = [],
      stepsCache = [(''login as {} with {}'', exampleStepValue loginCall),
                    (''click {}'', exampleStepValue clickCall)],
      SpecDirs = []\<rparr>"
  by (simp add: twoFiles_def indexedOnce_eq onSpecFileModify_def getParsedSpecs_def
      parsesLogoutOnly_def addToSpecsCache_def example_steps example_signatures Let_def)


text \<open>
  Claim C5. A remove event for a spec file deletes the entry of that file from the specs
  cache and nothing else: the file has no entry afterwards, every other file has the entry
  it had, \<open>GetAvailableSpecs\<close> returns the specifications of the other entries, and the
  concepts cache and the steps cache, and so \<open>GetAvailableSteps\<close>, are what they were; step
  values that came from the removed file only stay in the catalogue.
\<close>

theorem onSpecFileRemove_frame:
  "map_of (specsCache (onSpecFileRemove s file)) file = None
   \<and> (\<forall>f. f \<noteq> file \<longrightarrow>
          map_of (specsCache (onSpecFileRemove s file)) f = map_of (specsCache s) f)
   \<and> GetAvailableSpecs (onSpecFileRemove s file)
       = concat (map snd (filter (\<lambda>entry. fst entry \<noteq> file) (specsCache s)))
   \<and> conceptsCache (onSpecFileRemove s file) = conceptsCache s
   \<and> stepsCache (onSpecFileRemove s file) = stepsCache s
   \<and> GetAvailableSteps (onSpecFileRemove s file) = GetAvailableSteps s"
proof -
  have "AList.delete file (specsCache s) = filter (\<lambda>entry. fst entry \<noteq> file) (specsCache s)"
    by (simp add: AList.delete_eq case_prod_unfold) (metis)
  then have "GetAvailableSpecs (onSpecFileRemove s file)
               = concat (map snd (filter (\<lambda>entry. fst entry \<noteq> file) (specsCache s)))"
    by (simp add: onSpecFileRemove_def GetAvailableSpecs_def)
  moreover have "map_of (specsCache (onSpecFileRemove s file)) file = None"
    by (simp add: onSpecFileRemove_def AList.delete_conv')
  moreover have "\<forall>f. f \<noteq> file \<longrightarrow>
          map_of (specsCache (onSpecFileRemove s file)) f = map_of (specsCache s) f"
    by (simp add: onSpecFileRemove_def AList.delete_conv')
  ultimately show ?thesis
    by (simp add: onSpecFileRemove_def GetAvailableSteps_def)
qed

theorem onSpecFileRemove_frame_witness:
  "map_of (specsCache (onSpecFileRemove twoFiles ''a.spec'')) ''a.spec'' = None
   \<and> ''b.spec'' \<noteq> ''a.spec''
   \<and> map_of (specsCache (onSpecFileRemove twoFiles ''a.spec'')) ''b.spec'' = Some [logoutOnly]
   \<and> GetAvailableSpecs (onSpecFileRemove twoFiles ''a.spec'') = [logoutOnly]
   \<and> GetAvailableSteps (onSpecFileRemove twoFiles ''a.spec'')
       = [exampleStepValue loginCall, exampleStepValue clickCall]"
proof -
  note T = onSpecFileRemove_frame [of twoFiles "''a.spec''"]
  have ne: "''b.spec'' \<noteq> ''a.spec''" by simp
  have a: "map_of (specsCache (onSpecFileRemove twoFiles ''a.spec'')) ''a.spec'' = None"
    using T by (rule conjunct1)
  have b: "map_of (specsCache (onSpecFileRemove twoFiles ''a.spec'')) ''b.spec'' = Some [logoutOnly]"
    using T [THEN conjunct2, THEN conjunct1, THEN spec, of "''b.spec''"] ne
    by (simp add: twoFiles_eq)
  have c: "GetAvailableSpecs (onSpecFileRemove twoFiles ''a.spec'') = [logoutOnly]"
    using T [THEN conjunct2, THEN conjunct2, THEN conjunct1] by (simp add: twoFiles_eq)
  have d: "GetAvailableSteps (onSpecFileRemove twoFiles ''a.spec'')
             = [exampleStepValue loginCall, exampleStepValue clickCall]"
    using T by (simp add: twoFiles_eq GetAvailableSteps_def)
  from a ne b c d show ?thesis by simp
qed


text \<open>
  Claim C10. A single-file update whose parse fails changes no cache. When
  \<open>onSpecFileModify\<close> gets no parsed specification, the specs cache, the concepts cache and
  the steps cache are what they were. When the parse result of \<open>onConceptFileModify\<close> is
  present and carries an error, the call returns before any insert and the whole state is
  what it was.
\<close>

theorem failed_parse_keeps_caches:
  "(fst (parseSpecFiles [specFile]
           (case conceptDictionary s of None \<Rightarrow> NewConceptDictionary | Some d \<Rightarrow> d)) = [] \<longrightarrow>
      specsCache (onSpecFileModify parseSpecFiles createStepValue s specFile) = specsCache s
      \<and> conceptsCache (onSpecFileModify parseSpecFiles createStepValue s specFile) = conceptsCache s
      \<and> stepsCache (onSpecFileModify parseSpecFiles createStepValue s specFile) = stepsCache s)
   \<and> (\<forall>result. snd (parseFile conceptFile) = Some result \<and> Error result \<noteq> None \<longrightarrow>
          onConceptFileModify parseFile createStepValue s conceptFile = s)"
  by (auto simp: onSpecFileModify_def getParsedSpecs_def onConceptFileModify_def
      split: option.splits prod.splits)

theorem failed_parse_keeps_caches_witness:
  "fst (parsesNothing [''a.spec'']
          (case conceptDictionary indexedOnce of None \<Rightarrow> NewConceptDictionary | Some d \<Rightarrow> d)) = []
   \<and> specsCache (onSpecFileModify parsesNothing exampleStepValue indexedOnce ''a.spec'')
       = [(''a.spec'', [twoScenarios])]
   \<and> stepsCache (onSpecFileModify parsesNothing exampleStepValue indexedOnce ''a.spec'')
       = stepsCache indexedOnce
   \<and> snd (failsToParse ''login.cpt'') = Some \<lparr>Ok = False, Error = Some ''no heading''\<rparr>
   \<and> onConceptFileModify failsToParse exampleStepValue indexedOnce ''login.cpt'' = indexedOnce"
proof -
  note T = failed_parse_keeps_caches [of parsesNothing "''a.spec''" indexedOnce exampleStepValue
      failsToParse "''login.cpt''"]
  have h1: "fst (parsesNothing [''a.spec'']
          (case conceptDictionary indexedOnce of None \<Rightarrow> NewConceptDictionary | Some d \<Rightarrow> d)) = []"
    by (simp add: parsesNothing_def)
  have f: "snd (failsToParse ''login.cpt'') = Some \<lparr>Ok = False, Error = Some ''no heading''\<rparr>"
    by (simp add: failsToParse_def)
  have h2: "snd (failsToParse ''login.cpt'') = Some \<lparr>Ok = False, Error = Some ''no heading''\<rparr>
            \<and> Error \<lparr>Ok = False, Error = Some ''no heading''\<rparr> \<noteq> None"
    using f by simp
  have a: "specsCache (onSpecFileModify parsesNothing exampleStepValue indexedOnce ''a.spec'')
             = specsCache indexedOnce
           \<and> conceptsCache (onSpecFileModify parsesNothing exampleStepValue indexedOnce ''a.spec'')
             = conceptsCache indexedOnce
           \<and> stepsCache (onSpecFileModify parsesNothing exampleStepValue indexedOnce ''a.spec'')
             = stepsCache indexedOnce"
    using T [THEN conjunct1, THEN mp, OF h1] .
  have b: "onConceptFileModify failsToParse exampleStepValue indexedOnce ''login.cpt'' = indexedOnce"
    using T [THEN conjunct2, THEN spec, THEN mp, OF h2] .
  have s: "specsCache indexedOnce = [(''a.spec'', [twoScenarios])]"
    by (simp add: indexedOnce_eq)
  from h1 a b s f show ?thesis by simp
qed



















end
